theory Spec2Isabelle
  imports Complex_Main "HOL-Library.Word"
begin

unbundle bit_operations_syntax

section \<open>The playback loop of alsa2.c\<close>

text \<open>
  The repository holds two variants of one program: \<^verbatim>\<open>alsa2.c\<close>, the playback loop with
  space query, short-write handling and fault recovery, and \<^verbatim>\<open>alsa.c\<close>, an earlier draft
  of it without them. The specification describes the first; this theory embeds
  \<^verbatim>\<open>generate_data\<close> and the \<^verbatim>\<open>for(;;)\<close> loop of \<^verbatim>\<open>main\<close> of \<^verbatim>\<open>alsa2.c\<close>, and the
  corresponding parts of the draft at the end for comparison.

  The device is outside the program. Every call into ALSA or the kernel is an event of a
  trace, and what the call returns is an input of the iteration that makes it.
\<close>

subsection \<open>Constants of the system headers\<close>

text \<open>Linux values of \<^verbatim>\<open>errno.h\<close> and \<^verbatim>\<open>poll.h\<close>.\<close>

definition EINTR :: int where "EINTR = 4"
definition EPIPE :: int where "EPIPE = 32"
definition ESTRPIPE :: int where "ESTRPIPE = 86"

definition POLLIN :: "16 word" where "POLLIN = 1"
definition POLLOUT :: "16 word" where "POLLOUT = 4"
definition POLLERR :: "16 word" where "POLLERR = 8"

text \<open>\<^verbatim>\<open>snd_pcm_state_t\<close> of \<^verbatim>\<open>alsa/pcm.h\<close>.\<close>

datatype snd_pcm_state =
    SND_PCM_STATE_OPEN
  | SND_PCM_STATE_SETUP
  | SND_PCM_STATE_PREPARED
  | SND_PCM_STATE_RUNNING
  | SND_PCM_STATE_XRUN
  | SND_PCM_STATE_DRAINING
  | SND_PCM_STATE_PAUSED
  | SND_PCM_STATE_SUSPENDED
  | SND_PCM_STATE_DISCONNECTED

subsection \<open>The generator\<close>

text \<open>
  \<^verbatim>\<open>static float phase\<close> holds a whole number. Every whole number up to \<open>2 ^ 24\<close> is a
  \<^verbatim>\<open>float\<close>, so for \<open>rate \<le> 2 ^ 24\<close> the additions, comparisons and subtractions on it
  are exact, and the model keeps it as a natural number; \<open>exact_rate\<close> names that range
  (a device rate is some tens of thousands). The sample is the real number whose
  rounding the code stores; no property below depends on its value.
\<close>

definition exact_rate :: "nat \<Rightarrow> bool" where
  "exact_rate rate = (0 < rate \<and> rate \<le> 16777216)"

definition frequency :: real where "frequency = 440"

definition sample :: "nat \<Rightarrow> nat \<Rightarrow> real" where
  "sample rate phase = sin (real phase * 2 * pi * frequency / real rate)"

text \<open>
  \<^verbatim>\<open>generate_data(buffer, buffer_size, rate)\<close>: the samples written to
  \<^verbatim>\<open>buffer[0 .. buffer_size - 1]\<close> and the phase left behind, from the phase found.
\<close>

fun generate_data :: "nat \<Rightarrow> nat \<Rightarrow> nat \<Rightarrow> real list \<times> nat" where
  "generate_data 0 rate phase = ([], phase)"
| "generate_data (Suc n) rate phase =
     (let s = sample rate phase;
          phase1 = phase + 1;
          phase2 = (if phase1 \<ge> rate then phase1 - rate else phase1);
          (rest, phase') = generate_data n rate phase2
      in (s # rest, phase'))"

text \<open>
  \<^verbatim>\<open>generate_data\<close> of the draft \<^verbatim>\<open>alsa.c\<close>: the phase is not wrapped (the natural
  number is the float as long as it stays below \<open>2 ^ 24\<close>).
\<close>

fun draft_generate_data :: "nat \<Rightarrow> nat \<Rightarrow> nat \<Rightarrow> real list \<times> nat" where
  "draft_generate_data 0 rate phase = ([], phase)"
| "draft_generate_data (Suc n) rate phase =
     (let s = sample rate phase;
          (rest, phase') = draft_generate_data n rate (phase + 1)
      in (s # rest, phase'))"

subsection \<open>State, device responses, trace\<close>

text \<open>
  The variables of \<^verbatim>\<open>main\<close> that the loop changes, and the generator's static phase.
  \<^verbatim>\<open>local_data_ptr\<close> is \<open>None\<close> for \<^verbatim>\<open>NULL\<close> and \<open>Some k\<close> for
  \<^verbatim>\<open>local_data_buffer + k\<close>.
\<close>

record sched =
  local_data_buffer :: "real list"
  local_data_ptr :: "int option"
  frames_to_write_from_local_buffer :: int
  phase :: nat

text \<open>
  What the outside returns in one iteration. Each of these calls is made at most once
  per iteration; a field is read only if the iteration makes the call.
  \<open>frames_available\<close> is the \<^verbatim>\<open>long\<close> that \<^verbatim>\<open>snd_pcm_avail_update\<close> returns;
  \<open>writei_ret\<close> is the value of \<^verbatim>\<open>int ret\<close> after the assignment.
\<close>

record responses =
  select_ret :: int
  select_errno :: int
  revents_errval :: int
  revents :: "16 word"
  pcm_state :: snd_pcm_state
  resume_ret :: int
  prepare_ret :: int
  frames_available :: int
  writei_ret :: int

text \<open>
  The calls of an iteration, in order. \<open>Writei p n r\<close> is
  \<^verbatim>\<open>snd_pcm_writei(pcm_handle, p, n)\<close> returning \<open>r\<close>; \<open>Generate n\<close> is
  \<^verbatim>\<open>generate_data(local_data_buffer, n, rate)\<close>.
\<close>

datatype call =
    Generate nat
  | Select
  | PollRevents
  | PcmState
  | Resume
  | Prepare
  | AvailUpdate
  | Writei "int option" int int

text \<open>The places where the loop leaves the process (\<^verbatim>\<open>err\<close>, \<^verbatim>\<open>errx\<close>), named by their message.\<close>

datatype site =
    SelectSite
  | PollReventsSite
  | PrepareAfterXrun
  | PrepareAfterSuspended
  | AvailUpdateSite
  | PrepareAfterAvailXrun
  | WriteiSite
  | PrepareAfterWriteiXrun
  | PrepareAfterWriteiSuspended

datatype 's outcome = Continue 's | Exit site int

subsection \<open>The loop body\<close>

text \<open>Lines 81--86: the refill at the head of the loop.\<close>

definition refill :: "nat \<Rightarrow> nat \<Rightarrow> sched \<Rightarrow> call list \<times> sched" where
  "refill local_data_buffer_size rate s =
     (if frames_to_write_from_local_buffer s = 0 then
        (let (buf, ph) = generate_data local_data_buffer_size rate (phase s)
         in ([Generate local_data_buffer_size],
             s\<lparr>local_data_buffer := buf,
               local_data_ptr := Some 0,
               frames_to_write_from_local_buffer := int local_data_buffer_size,
               phase := ph\<rparr>))
      else ([], s))"

text \<open>
  \<^verbatim>\<open>snd_strerror\<close> takes an \<^verbatim>\<open>int\<close>: the \<^verbatim>\<open>long\<close> that
  \<^verbatim>\<open>snd_pcm_avail_update\<close> returned is converted on the way, which keeps its low 32
  bits as a signed number.
\<close>

definition long_to_int :: "int \<Rightarrow> int" where
  "long_to_int x = signed_take_bit 31 x"

text \<open>Lines 132--195: the body of \<^verbatim>\<open>if (revents & POLLOUT)\<close>.\<close>

definition on_writable :: "responses \<Rightarrow> sched \<Rightarrow> call list \<times> sched outcome" where
  "on_writable r s =
     (if pcm_state r = SND_PCM_STATE_XRUN then
        (if prepare_ret r < 0
         then ([PcmState, Prepare], Exit PrepareAfterXrun (prepare_ret r))
         else ([PcmState, Prepare], Continue s))
      else if pcm_state r = SND_PCM_STATE_SUSPENDED then
        (if resume_ret r < 0 \<or> resume_ret r = 0 then
           (if prepare_ret r < 0
            then ([PcmState, Resume, Prepare], Exit PrepareAfterSuspended (prepare_ret r))
            else ([PcmState, Resume, Prepare], Continue s))
         else ([PcmState, Resume], Continue s))
      else if frames_available r < 0 then
        (if frames_available r = - EPIPE then
           (if prepare_ret r < 0
            then ([PcmState, AvailUpdate, Prepare], Exit PrepareAfterAvailXrun (prepare_ret r))
            else ([PcmState, AvailUpdate, Prepare], Continue s))
         else ([PcmState, AvailUpdate],
               Exit AvailUpdateSite (long_to_int (frames_available r))))
      else
        (let frames_to_write_this_iter =
               (if frames_available r > frames_to_write_from_local_buffer s
                then frames_to_write_from_local_buffer s
                else frames_available r);
             w = Writei (local_data_ptr s) frames_to_write_this_iter (writei_ret r)
         in if frames_to_write_this_iter > 0 then
              (if writei_ret r < 0 then
                 (if writei_ret r = - EPIPE then
                    (if prepare_ret r < 0
                     then ([PcmState, AvailUpdate, w, Prepare],
                           Exit PrepareAfterWriteiXrun (prepare_ret r))
                     else ([PcmState, AvailUpdate, w, Prepare], Continue s))
                  else if writei_ret r = - ESTRPIPE then
                    (if resume_ret r < 0 \<or> resume_ret r = 0 then
                       (if prepare_ret r < 0
                        then ([PcmState, AvailUpdate, w, Resume, Prepare],
                              Exit PrepareAfterWriteiSuspended (prepare_ret r))
                        else ([PcmState, AvailUpdate, w, Resume, Prepare], Continue s))
                     else ([PcmState, AvailUpdate, w, Resume], Continue s))
                  else ([PcmState, AvailUpdate, w], Exit WriteiSite (writei_ret r)))
               else ([PcmState, AvailUpdate, w],
                     Continue
                       (s\<lparr>local_data_ptr :=
                            map_option (\<lambda>p. p + writei_ret r) (local_data_ptr s),
                          frames_to_write_from_local_buffer :=
                            frames_to_write_from_local_buffer s - writei_ret r\<rparr>)))
            else ([PcmState, AvailUpdate], Continue s)))"

text \<open>
  Lines 80--196: one iteration. The descriptor sets that \<^verbatim>\<open>select\<close> and
  \<^verbatim>\<open>snd_pcm_poll_descriptors_revents\<close> exchange stay outside: only the value of
  \<^verbatim>\<open>revents\<close> that comes back is read by the loop.
\<close>

definition loop_body :: "nat \<Rightarrow> nat \<Rightarrow> responses \<Rightarrow> sched \<Rightarrow> call list \<times> sched outcome" where
  "loop_body local_data_buffer_size rate r s =
     (let (g, s1) = refill local_data_buffer_size rate s
      in if select_ret r = - 1 then
           (if select_errno r = EINTR
            then (g @ [Select], Continue s1)
            else (g @ [Select], Exit SelectSite (select_errno r)))
         else if revents_errval r < 0 then
           (g @ [Select, PollRevents], Exit PollReventsSite (revents_errval r))
         else if revents r AND POLLOUT \<noteq> 0 then
           (let (cs, out) = on_writable r s1
            in (g @ [Select, PollRevents] @ cs, out))
         else (g @ [Select, PollRevents], Continue s1))"

text \<open>
  The \<^verbatim>\<open>for(;;)\<close> loop over a finite list of responses, one per iteration: it stops at
  the first exit, and otherwise returns the state reached.
\<close>

fun run :: "nat \<Rightarrow> nat \<Rightarrow> responses list \<Rightarrow> sched \<Rightarrow> call list \<times> sched outcome" where
  "run local_data_buffer_size rate [] s = ([], Continue s)"
| "run local_data_buffer_size rate (r # rs) s =
     (case loop_body local_data_buffer_size rate r s of
        (cs, Exit a c) \<Rightarrow> (cs, Exit a c)
      | (cs, Continue s') \<Rightarrow>
          (let (cs', out) = run local_data_buffer_size rate rs s'
           in (cs @ cs', out)))"

text \<open>
  Lines 73--76: the state before the first iteration. The array is not initialised;
  \<open>b\<close> is what it happens to hold.
\<close>

definition initial :: "real list \<Rightarrow> sched" where
  "initial b =
     \<lparr>local_data_buffer = b, local_data_ptr = None,
      frames_to_write_from_local_buffer = 0, phase = 0\<rparr>"

definition main_buffer_size :: nat where "main_buffer_size = 65536"

subsection \<open>Reading a trace\<close>

text \<open>The write requests of a trace (pointer and frame count), in order.\<close>

fun writes_of :: "call list \<Rightarrow> (int option \<times> int) list" where
  "writes_of [] = []"
| "writes_of (Writei p n r # cs) = (p, n) # writes_of cs"
| "writes_of (c # cs) = writes_of cs"

text \<open>The frames a trace's writes accepted, and the frames it generated.\<close>

fun frames_written :: "call list \<Rightarrow> int" where
  "frames_written [] = 0"
| "frames_written (Writei p n r # cs) = (if r < 0 then 0 else r) + frames_written cs"
| "frames_written (c # cs) = frames_written cs"

fun frames_generated :: "call list \<Rightarrow> nat" where
  "frames_generated [] = 0"
| "frames_generated (Generate n # cs) = n + frames_generated cs"
| "frames_generated (c # cs) = frames_generated cs"

text \<open>A write accepted no more than it was asked for.\<close>

fun accepted_within :: "call \<Rightarrow> bool" where
  "accepted_within (Writei p n r) = (r \<le> n)"
| "accepted_within c = True"


subsection \<open>A simulated device\<close>

text \<open>
  An iteration in which the wait returns, the writable event fires, and the device
  answers with state \<open>st\<close>, available space \<open>a\<close>, write result \<open>w\<close>, resume
  result \<open>res\<close> and prepare result \<open>prep\<close>.
\<close>

definition device_response ::
  "snd_pcm_state \<Rightarrow> int \<Rightarrow> int \<Rightarrow> int \<Rightarrow> int \<Rightarrow> responses" where
  "device_response st a w res prep =
     \<lparr>select_ret = 1, select_errno = 0, revents_errval = 0, revents = POLLOUT,
      pcm_state = st, resume_ret = res, prepare_ret = prep,
      frames_available = a, writei_ret = w\<rparr>"

subsection \<open>The draft: alsa.c\<close>

text \<open>
  The same loop as \<^verbatim>\<open>alsa.c\<close> has it: no refill before the wait, no space query and
  no recovery. \<^verbatim>\<open>data_len\<close> is a \<^verbatim>\<open>size_t\<close> of 64 bits.
\<close>

record draft =
  data :: "real list"
  data_ptr :: "int option"
  data_len :: nat
  draft_phase :: nat

definition draft_loop_body ::
  "nat \<Rightarrow> nat \<Rightarrow> responses \<Rightarrow> draft \<Rightarrow> call list \<times> draft outcome" where
  "draft_loop_body data_size rate r s =
     (if select_ret r = - 1 then ([Select], Exit SelectSite (select_errno r))
      else if revents_errval r < 0 then
        ([Select, PollRevents], Exit PollReventsSite (revents_errval r))
      else if revents r AND POLLOUT \<noteq> 0 then
        (let (g, s1) =
               (if data_len s = 0 then
                  (let (buf, ph) = draft_generate_data data_size rate (draft_phase s)
                   in ([Generate data_size],
                       s\<lparr>data := buf, data_ptr := Some 0, data_len := data_size,
                         draft_phase := ph\<rparr>))
                else ([], s));
             w = Writei (Some 0) (int (data_len s1)) (writei_ret r)
         in if writei_ret r < 0 then
              ([Select, PollRevents] @ g @ [w], Exit WriteiSite (writei_ret r))
            else
              ([Select, PollRevents] @ g @ [w],
               Continue
                 (s1\<lparr>data_ptr := map_option (\<lambda>p. p + writei_ret r) (data_ptr s1),
                     data_len := nat ((int (data_len s1) - writei_ret r) mod 2 ^ 64)\<rparr>)))
      else ([Select, PollRevents], Continue s))"

section \<open>The generator\<close>

lemma generate_data_append:
  "generate_data (n + m) rate ph =
     (let (b1, p1) = generate_data n rate ph;
          (b2, p2) = generate_data m rate p1
      in (b1 @ b2, p2))"
  by (induction n arbitrary: ph) (simp_all add: Let_def split: prod.splits)

lemma generate_data_length: "length (fst (generate_data n rate ph)) = n"
  by (induction n arbitrary: ph) (simp_all add: Let_def case_prod_beta)

lemma generate_data_phase:
  "0 < rate \<Longrightarrow> ph < rate \<Longrightarrow> snd (generate_data n rate ph) = (ph + n) mod rate"
proof (induction n arbitrary: ph)
  case 0
  then show ?case by simp
next
  case (Suc n)
  show ?case
  proof (cases "ph + 1 \<ge> rate")
    case True
    with Suc.prems have e: "ph + 1 = rate" by simp
    have "snd (generate_data (Suc n) rate ph) = snd (generate_data n rate 0)"
      using e by (simp add: Let_def split: prod.splits)
    also have "\<dots> = (0 + n) mod rate"
      using Suc.IH[of 0] Suc.prems by simp
    also have "\<dots> = (rate + n) mod rate"
      by simp
    also have "rate + n = ph + Suc n"
      using e by simp
    finally show ?thesis .
  next
    case False
    then have "snd (generate_data (Suc n) rate ph) = snd (generate_data n rate (ph + 1))"
      by (simp add: Let_def split: prod.splits)
    also have "\<dots> = (ph + 1 + n) mod rate"
      using Suc.IH[of "ph + 1"] False Suc.prems by simp
    finally show ?thesis by (simp add: ac_simps)
  qed
qed

lemma generate_4_4:
  "generate_data 4 4 0 = ([sample 4 0, sample 4 1, sample 4 2, sample 4 3], 0)"
  by (simp add: numeral_eq_Suc Let_def)

lemma next_phase_mod:
  assumes "0 < (rate::nat)" "ph < rate"
  shows "(if ph + 1 \<ge> rate then ph + 1 - rate else ph + 1) = (ph + 1) mod rate"
proof (cases "ph + 1 \<ge> rate")
  case True
  with assms(2) have "ph + 1 = rate" by linarith
  then show ?thesis by simp
next
  case False
  then show ?thesis by simp
qed

lemma generate_data_Suc_fst:
  "fst (generate_data (Suc n) rate ph) =
     sample rate ph #
     fst (generate_data n rate (if ph + 1 \<ge> rate then ph + 1 - rate else ph + 1))"
  by (simp add: Let_def case_prod_beta)

lemma generate_data_nth:
  "0 < rate \<Longrightarrow> ph < rate \<Longrightarrow> i < n \<Longrightarrow>
     fst (generate_data n rate ph) ! i = sample rate ((ph + i) mod rate)"
proof (induction n arbitrary: ph i)
  case 0
  then show ?case by simp
next
  case (Suc n)
  let ?p2 = "(ph + 1) mod rate"
  have unfold: "fst (generate_data (Suc n) rate ph) =
      sample rate ph # fst (generate_data n rate ?p2)"
    by (simp only: generate_data_Suc_fst next_phase_mod[OF Suc.prems(1,2)])
  show ?case
  proof (cases i)
    case 0
    then show ?thesis using Suc.prems(2) unfolding unfold by simp
  next
    case (Suc j)
    with Suc.prems(3) have "j < n" by simp
    moreover have "?p2 < rate" using Suc.prems(1) by simp
    ultimately have "fst (generate_data n rate ?p2) ! j = sample rate ((?p2 + j) mod rate)"
      using Suc.IH[of ?p2 j] Suc.prems(1) by simp
    also have "(?p2 + j) mod rate = (ph + Suc j) mod rate"
      by (simp add: mod_add_left_eq)
    finally show ?thesis unfolding unfold Suc by simp
  qed
qed

text \<open>
  C9, for a rate in the range where the float phase is exact and a phase below it (as
  every phase the generator leaves is): two consecutive calls of \<open>N\<close> samples each
  give, one after the other, the samples of a single call of \<open>2 * N\<close> samples from the
  same phase, and leave the same phase. Each block has \<open>N\<close> samples; sample \<open>i\<close> of
  the first is the wave at phase \<open>(ph + i) mod rate\<close> and sample \<open>i\<close> of the second
  the wave at phase \<open>(ph + N + i) mod rate\<close>, so the second block starts one step
  after the last sample of the first: no jump and no repeated sample where they meet.
\<close>

theorem consecutive_blocks_continuous:
  assumes "exact_rate rate" "ph < rate"
  shows "generate_data (2 * N) rate ph =
     (let (block1, ph1) = generate_data N rate ph;
          (block2, ph2) = generate_data N rate ph1
      in (block1 @ block2, ph2)) \<and>
   length (fst (generate_data N rate ph)) = N \<and>
   length (fst (generate_data N rate (snd (generate_data N rate ph)))) = N \<and>
   (\<forall>i < N. fst (generate_data N rate ph) ! i = sample rate ((ph + i) mod rate)) \<and>
   (\<forall>i < N. fst (generate_data N rate (snd (generate_data N rate ph))) ! i =
              sample rate ((ph + N + i) mod rate)) \<and>
   (\<forall>i < 2 * N. fst (generate_data (2 * N) rate ph) ! i = sample rate ((ph + i) mod rate))"
proof -
  from assms(1) have pos: "0 < rate"
    by (simp add: exact_rate_def)
  have ph1: "snd (generate_data N rate ph) = (ph + N) mod rate"
    using generate_data_phase[OF pos assms(2)] .
  then have lt1: "snd (generate_data N rate ph) < rate"
    using pos by simp
  have a: "generate_data (2 * N) rate ph =
     (let (block1, ph1) = generate_data N rate ph;
          (block2, ph2) = generate_data N rate ph1
      in (block1 @ block2, ph2))"
    using generate_data_append[of N N rate ph] by (simp add: mult_2)
  have b: "\<forall>i < N. fst (generate_data N rate ph) ! i = sample rate ((ph + i) mod rate)"
    using generate_data_nth[OF pos assms(2)] by blast
  have c: "\<forall>i < N. fst (generate_data N rate (snd (generate_data N rate ph))) ! i =
              sample rate ((ph + N + i) mod rate)"
  proof (intro allI impI)
    fix i assume "i < N"
    from generate_data_nth[OF pos lt1 this]
    show "fst (generate_data N rate (snd (generate_data N rate ph))) ! i =
            sample rate ((ph + N + i) mod rate)"
      by (simp add: ph1 mod_add_left_eq)
  qed
  have d: "\<forall>i < 2 * N. fst (generate_data (2 * N) rate ph) ! i =
             sample rate ((ph + i) mod rate)"
    using generate_data_nth[OF pos assms(2)] by blast
  from a b c d show ?thesis
    by (simp add: generate_data_length)
qed

theorem consecutive_blocks_continuous_witness:
  "exact_rate 4 \<and> (3::nat) < 4 \<and>
   generate_data 2 4 3 = ([sample 4 3, sample 4 0], 1) \<and>
   generate_data 2 4 1 = ([sample 4 1, sample 4 2], 3) \<and>
   generate_data (2 * 2) 4 3 = ([sample 4 3, sample 4 0, sample 4 1, sample 4 2], 3) \<and>
   fst (generate_data 2 4 (snd (generate_data 2 4 3))) ! 0 = sample 4 ((3 + 2 + 0) mod 4)"
proof -
  have e: "exact_rate 4" and l: "(3::nat) < 4"
    by (simp_all add: exact_rate_def)
  have g1: "generate_data 2 4 3 = ([sample 4 3, sample 4 0], 1)"
    and g2: "generate_data 2 4 1 = ([sample 4 1, sample 4 2], 3)"
    by (simp_all add: numeral_eq_Suc Let_def)
  from consecutive_blocks_continuous[OF e l, of 2]
  have whole: "generate_data (2 * 2) 4 3 =
     (let (block1, ph1) = generate_data 2 4 3;
          (block2, ph2) = generate_data 2 4 ph1
      in (block1 @ block2, ph2))"
    and first: "\<forall>i < 2. fst (generate_data 2 4 (snd (generate_data 2 4 3))) ! i =
              sample 4 ((3 + 2 + i) mod 4)"
    by blast+
  from first have f0: "fst (generate_data 2 4 (snd (generate_data 2 4 3))) ! 0 =
      sample 4 ((3 + 2 + 0) mod 4)"
    by simp
  have w: "generate_data (2 * 2) 4 3 = ([sample 4 3, sample 4 0, sample 4 1, sample 4 2], 3)"
    unfolding whole by (simp add: numeral_eq_Suc Let_def)
  show ?thesis
    using e l g1 g2 w f0 by blast
qed

section \<open>One iteration\<close>

subsection \<open>The refill\<close>

lemma refill_frames:
  "frames_to_write_from_local_buffer (snd (refill cap rate s)) =
     (if frames_to_write_from_local_buffer s = 0 then int cap
      else frames_to_write_from_local_buffer s)"
  by (simp add: refill_def case_prod_beta)

lemma refill_ptr:
  "local_data_ptr (snd (refill cap rate s)) =
     (if frames_to_write_from_local_buffer s = 0 then Some 0 else local_data_ptr s)"
  by (simp add: refill_def case_prod_beta)

lemma refill_phase:
  "phase (snd (refill cap rate s)) =
     (if frames_to_write_from_local_buffer s = 0
      then snd (generate_data cap rate (phase s)) else phase s)"
  by (simp add: refill_def case_prod_beta)

lemma refill_calls:
  "fst (refill cap rate s) =
     (if frames_to_write_from_local_buffer s = 0 then [Generate cap] else [])"
  by (simp add: refill_def case_prod_beta)

lemma refill_nonempty:
  "frames_to_write_from_local_buffer s \<noteq> 0 \<Longrightarrow> snd (refill cap rate s) = s"
  by (simp add: refill_def)

lemma refill_initial_4:
  "refill 4 4 (initial b) =
     ([Generate 4],
      \<lparr>local_data_buffer = [sample 4 0, sample 4 1, sample 4 2, sample 4 3],
       local_data_ptr = Some 0, frames_to_write_from_local_buffer = 4, phase = 0\<rparr>)"
  by (simp add: refill_def initial_def generate_4_4)

subsection \<open>The body in terms of its parts\<close>

lemma loop_body_unfold:
  "loop_body cap rate r s =
     (if select_ret r = - 1 then
        (if select_errno r = EINTR
         then (fst (refill cap rate s) @ [Select], Continue (snd (refill cap rate s)))
         else (fst (refill cap rate s) @ [Select], Exit SelectSite (select_errno r)))
      else if revents_errval r < 0 then
        (fst (refill cap rate s) @ [Select, PollRevents],
         Exit PollReventsSite (revents_errval r))
      else if revents r AND POLLOUT \<noteq> 0 then
        (fst (refill cap rate s) @ [Select, PollRevents]
           @ fst (on_writable r (snd (refill cap rate s))),
         snd (on_writable r (snd (refill cap rate s))))
      else (fst (refill cap rate s) @ [Select, PollRevents],
            Continue (snd (refill cap rate s))))"
  by (simp add: loop_body_def case_prod_beta)

lemma run_Cons_Exit:
  "loop_body cap rate r s = (cs, Exit a c) \<Longrightarrow> run cap rate (r # rs) s = (cs, Exit a c)"
  by simp

lemma run_Cons_Continue:
  "loop_body cap rate r s = (cs, Continue s1) \<Longrightarrow>
   run cap rate (r # rs) s = (cs @ fst (run cap rate rs s1), snd (run cap rate rs s1))"
  by (simp add: case_prod_beta)

lemma writes_of_append: "writes_of (xs @ ys) = writes_of xs @ writes_of ys"
  by (induction xs rule: writes_of.induct) simp_all

lemma writes_of_refill: "writes_of (fst (refill cap rate s)) = []"
  by (simp add: refill_calls)

lemma frames_written_append:
  "frames_written (xs @ ys) = frames_written xs + frames_written ys"
  by (induction xs rule: frames_written.induct) simp_all

lemma frames_generated_append:
  "frames_generated (xs @ ys) = frames_generated xs + frames_generated ys"
  by (induction xs rule: frames_generated.induct) simp_all

subsection \<open>The writable path without a fault\<close>

lemma on_writable_normal_writes:
  assumes "pcm_state r \<noteq> SND_PCM_STATE_XRUN" "pcm_state r \<noteq> SND_PCM_STATE_SUSPENDED"
  shows "\<exists>rest. fst (on_writable r s) = [PcmState, AvailUpdate] @ rest \<and>
           writes_of rest =
             (if 0 < min (frames_available r) (frames_to_write_from_local_buffer s)
              then [(local_data_ptr s,
                     min (frames_available r) (frames_to_write_from_local_buffer s))]
              else [])"
  using assms by (simp add: on_writable_def Let_def min_def)

lemma loop_body_normal_writes:
  assumes "select_ret r \<noteq> - 1" "\<not> revents_errval r < 0" "revents r AND POLLOUT \<noteq> 0"
    "pcm_state r \<noteq> SND_PCM_STATE_XRUN" "pcm_state r \<noteq> SND_PCM_STATE_SUSPENDED"
  shows "\<exists>rest. fst (loop_body cap rate r s) =
             fst (refill cap rate s) @ [Select, PollRevents, PcmState, AvailUpdate] @ rest \<and>
           writes_of rest =
             (if 0 < min (frames_available r)
                        (frames_to_write_from_local_buffer (snd (refill cap rate s)))
              then [(local_data_ptr (snd (refill cap rate s)),
                     min (frames_available r)
                       (frames_to_write_from_local_buffer (snd (refill cap rate s))))]
              else [])"
  using assms on_writable_normal_writes[of r "snd (refill cap rate s)"]
  by (auto simp: loop_body_unfold)

lemma scenario_run:
  "run 4 4 [device_response SND_PCM_STATE_RUNNING 2 2 0 0,
            device_response SND_PCM_STATE_RUNNING 0 0 0 0,
            device_response SND_PCM_STATE_RUNNING 2 2 0 0] (initial b) =
     ([Generate 4, Select, PollRevents, PcmState, AvailUpdate, Writei (Some 0) 2 2,
       Select, PollRevents, PcmState, AvailUpdate,
       Select, PollRevents, PcmState, AvailUpdate, Writei (Some 2) 2 2],
      Continue \<lparr>local_data_buffer = [sample 4 0, sample 4 1, sample 4 2, sample 4 3],
                local_data_ptr = Some 4, frames_to_write_from_local_buffer = 0,
                phase = 0\<rparr>)"
  by (simp add: loop_body_def refill_def on_writable_def device_response_def initial_def
      generate_4_4 POLLOUT_def Let_def)

lemma scenario_refill:
  "fst (loop_body 4 4 r
          \<lparr>local_data_buffer = [sample 4 0, sample 4 1, sample 4 2, sample 4 3],
           local_data_ptr = Some 4, frames_to_write_from_local_buffer = 0, phase = 0\<rparr>)
     ! 0 = Generate 4"
  by (simp add: loop_body_unfold refill_calls)

text \<open>
  C1: in an iteration where the wait returns with the writable event and the device
  state is neither XRUN nor SUSPENDED, the calls are the refill's, then the wait, the
  state and the space query, and after them exactly one write of
  \<open>n = min(available, remaining)\<close> frames from the cursor if \<open>n > 0\<close> and no write
  otherwise (so none when the query returns 0 or a fault). With capacity 4 and
  available space 2, 0, 2 the loop writes 2 frames at offset 0, writes nothing in the
  second iteration, writes 2 frames at offset 2, is left with 0 frames, and the next
  iteration starts with a refill.
\<close>

theorem writable_normal_writes_min:
  "(select_ret r \<noteq> - 1 \<and> \<not> revents_errval r < 0 \<and> revents r AND POLLOUT \<noteq> 0 \<and>
    pcm_state r \<noteq> SND_PCM_STATE_XRUN \<and> pcm_state r \<noteq> SND_PCM_STATE_SUSPENDED \<longrightarrow>
      (\<exists>rest. fst (loop_body cap rate r s) =
           fst (refill cap rate s) @ [Select, PollRevents, PcmState, AvailUpdate] @ rest \<and>
         writes_of rest =
           (if 0 < min (frames_available r)
                      (frames_to_write_from_local_buffer (snd (refill cap rate s)))
            then [(local_data_ptr (snd (refill cap rate s)),
                   min (frames_available r)
                     (frames_to_write_from_local_buffer (snd (refill cap rate s))))]
            else []))) \<and>
   run 4 4 [device_response SND_PCM_STATE_RUNNING 2 2 0 0,
            device_response SND_PCM_STATE_RUNNING 0 0 0 0,
            device_response SND_PCM_STATE_RUNNING 2 2 0 0] (initial b) =
     ([Generate 4, Select, PollRevents, PcmState, AvailUpdate, Writei (Some 0) 2 2,
       Select, PollRevents, PcmState, AvailUpdate,
       Select, PollRevents, PcmState, AvailUpdate, Writei (Some 2) 2 2],
      Continue \<lparr>local_data_buffer = [sample 4 0, sample 4 1, sample 4 2, sample 4 3],
                local_data_ptr = Some 4, frames_to_write_from_local_buffer = 0,
                phase = 0\<rparr>) \<and>
   fst (loop_body 4 4 r4
          \<lparr>local_data_buffer = [sample 4 0, sample 4 1, sample 4 2, sample 4 3],
           local_data_ptr = Some 4, frames_to_write_from_local_buffer = 0, phase = 0\<rparr>)
     ! 0 = Generate 4"
  using loop_body_normal_writes[of r cap rate s] scenario_run[of b] scenario_refill[of r4]
  by blast

theorem writable_normal_writes_min_witness:
  "select_ret (device_response SND_PCM_STATE_RUNNING 3 3 0 0) \<noteq> - 1 \<and>
   \<not> revents_errval (device_response SND_PCM_STATE_RUNNING 3 3 0 0) < 0 \<and>
   revents (device_response SND_PCM_STATE_RUNNING 3 3 0 0) AND POLLOUT \<noteq> 0 \<and>
   pcm_state (device_response SND_PCM_STATE_RUNNING 3 3 0 0) \<noteq> SND_PCM_STATE_XRUN \<and>
   pcm_state (device_response SND_PCM_STATE_RUNNING 3 3 0 0) \<noteq> SND_PCM_STATE_SUSPENDED \<and>
   (\<exists>rest. fst (loop_body 4 4 (device_response SND_PCM_STATE_RUNNING 3 3 0 0) (initial [])) =
        [Generate 4, Select, PollRevents, PcmState, AvailUpdate] @ rest \<and>
      writes_of rest = [(Some 0, 3)])"
  using writable_normal_writes_min
    [of "device_response SND_PCM_STATE_RUNNING 3 3 0 0" 4 4 "initial []"]
  by (simp add: device_response_def POLLOUT_def refill_initial_4)

subsection \<open>Short writes\<close>

lemma short_write_advance:
  assumes "select_ret r \<noteq> - 1" "\<not> revents_errval r < 0" "revents r AND POLLOUT \<noteq> 0"
    "pcm_state r \<noteq> SND_PCM_STATE_XRUN" "pcm_state r \<noteq> SND_PCM_STATE_SUSPENDED"
    "0 \<le> writei_ret r"
    "writei_ret r < min (frames_available r)
                       (frames_to_write_from_local_buffer (snd (refill cap rate s)))"
    "local_data_ptr (snd (refill cap rate s)) = Some k"
  shows "loop_body cap rate r s =
           (fst (refill cap rate s) @
              [Select, PollRevents, PcmState, AvailUpdate,
               Writei (Some k)
                 (min (frames_available r)
                    (frames_to_write_from_local_buffer (snd (refill cap rate s))))
                 (writei_ret r)],
            Continue ((snd (refill cap rate s))
              \<lparr>local_data_ptr := Some (k + writei_ret r),
               frames_to_write_from_local_buffer :=
                 frames_to_write_from_local_buffer (snd (refill cap rate s)) - writei_ret r\<rparr>))"
  using assms by (simp add: loop_body_unfold on_writable_def Let_def min_def split: if_splits)

lemma on_writable_writes_ptr:
  "(p, m) \<in> set (writes_of (fst (on_writable r s))) \<Longrightarrow> p = local_data_ptr s"
  by (simp add: on_writable_def Let_def split: if_splits)

lemma loop_body_writes_ptr:
  "(p, m) \<in> set (writes_of (fst (loop_body cap rate r s))) \<Longrightarrow>
     p = local_data_ptr (snd (refill cap rate s))"
  by (auto simp: loop_body_unfold writes_of_append writes_of_refill
      dest: on_writable_writes_ptr split: if_splits)

text \<open>
  C2: when a write of \<open>n\<close> frames from offset \<open>k\<close> accepts \<open>ret\<close> frames with
  \<open>0 \<le> ret < n\<close>, the iteration leaves the pointer at \<open>k + ret\<close> and the remaining
  count lowered by \<open>ret\<close>, the buffer as it was; the next iteration generates nothing,
  and a write it makes starts at offset \<open>k + ret\<close>.
\<close>

theorem short_write_advances_by_accepted:
  assumes "select_ret r \<noteq> - 1" "\<not> revents_errval r < 0" "revents r AND POLLOUT \<noteq> 0"
    "pcm_state r \<noteq> SND_PCM_STATE_XRUN" "pcm_state r \<noteq> SND_PCM_STATE_SUSPENDED"
    "0 \<le> writei_ret r"
    "writei_ret r < min (frames_available r)
                       (frames_to_write_from_local_buffer (snd (refill cap rate s)))"
    "local_data_ptr (snd (refill cap rate s)) = Some k"
  shows "\<exists>s'. snd (loop_body cap rate r s) = Continue s' \<and>
           writes_of (fst (loop_body cap rate r s)) =
             [(Some k, min (frames_available r)
                         (frames_to_write_from_local_buffer (snd (refill cap rate s))))] \<and>
           local_data_ptr s' = Some (k + writei_ret r) \<and>
           frames_to_write_from_local_buffer s' =
             frames_to_write_from_local_buffer (snd (refill cap rate s)) - writei_ret r \<and>
           local_data_buffer s' = local_data_buffer (snd (refill cap rate s)) \<and>
           frames_generated (fst (loop_body cap rate r' s')) = 0 \<and>
           (\<forall>p m. (p, m) \<in> set (writes_of (fst (loop_body cap rate r' s'))) \<longrightarrow>
                    p = Some (k + writei_ret r))"
proof -
  let ?s1 = "snd (refill cap rate s)"
  let ?s' = "?s1\<lparr>local_data_ptr := Some (k + writei_ret r),
                 frames_to_write_from_local_buffer :=
                   frames_to_write_from_local_buffer ?s1 - writei_ret r\<rparr>"
  have body: "loop_body cap rate r s =
           (fst (refill cap rate s) @
              [Select, PollRevents, PcmState, AvailUpdate,
               Writei (Some k)
                 (min (frames_available r) (frames_to_write_from_local_buffer ?s1))
                 (writei_ret r)],
            Continue ?s')"
    by (rule short_write_advance[OF assms])
  have left: "frames_to_write_from_local_buffer ?s' \<noteq> 0"
    using assms(7) by simp
  then have next_refill: "refill cap rate ?s' = ([], ?s')"
    by (simp add: refill_def)
  have gen: "frames_generated (fst (loop_body cap rate r' ?s')) = 0"
    unfolding loop_body_unfold next_refill
    by (simp add: frames_generated_append on_writable_def Let_def)
  have ptr: "\<forall>p m. (p, m) \<in> set (writes_of (fst (loop_body cap rate r' ?s'))) \<longrightarrow>
                    p = Some (k + writei_ret r)"
    using loop_body_writes_ptr[of _ _ cap rate r' ?s'] by (simp add: next_refill)
  show ?thesis
    using gen ptr by (simp add: body writes_of_append writes_of_refill)
qed

theorem short_write_advances_by_accepted_witness:
  "select_ret (device_response SND_PCM_STATE_RUNNING 3 1 0 0) \<noteq> - 1 \<and>
   \<not> revents_errval (device_response SND_PCM_STATE_RUNNING 3 1 0 0) < 0 \<and>
   revents (device_response SND_PCM_STATE_RUNNING 3 1 0 0) AND POLLOUT \<noteq> 0 \<and>
   pcm_state (device_response SND_PCM_STATE_RUNNING 3 1 0 0) \<noteq> SND_PCM_STATE_XRUN \<and>
   pcm_state (device_response SND_PCM_STATE_RUNNING 3 1 0 0) \<noteq> SND_PCM_STATE_SUSPENDED \<and>
   0 \<le> writei_ret (device_response SND_PCM_STATE_RUNNING 3 1 0 0) \<and>
   writei_ret (device_response SND_PCM_STATE_RUNNING 3 1 0 0) <
     min (frames_available (device_response SND_PCM_STATE_RUNNING 3 1 0 0))
         (frames_to_write_from_local_buffer (snd (refill 4 4 (initial [])))) \<and>
   local_data_ptr (snd (refill 4 4 (initial []))) = Some 0 \<and>
   (\<exists>s'. snd (loop_body 4 4 (device_response SND_PCM_STATE_RUNNING 3 1 0 0) (initial []))
            = Continue s' \<and>
      writes_of (fst (loop_body 4 4 (device_response SND_PCM_STATE_RUNNING 3 1 0 0)
                        (initial []))) = [(Some 0, 3)] \<and>
      local_data_ptr s' = Some 1 \<and>
      frames_to_write_from_local_buffer s' = 3 \<and>
      (\<forall>p m. (p, m) \<in> set (writes_of
                 (fst (loop_body 4 4 (device_response SND_PCM_STATE_RUNNING 2 2 0 0) s')))
               \<longrightarrow> p = Some 1)) \<and>
   fst (run 4 4 [device_response SND_PCM_STATE_RUNNING 3 1 0 0,
                 device_response SND_PCM_STATE_RUNNING 2 2 0 0] (initial [])) =
     [Generate 4, Select, PollRevents, PcmState, AvailUpdate, Writei (Some 0) 3 1,
      Select, PollRevents, PcmState, AvailUpdate, Writei (Some 1) 2 2]"
proof -
  let ?r = "device_response SND_PCM_STATE_RUNNING 3 1 0 0"
  have h: "select_ret ?r \<noteq> - 1" "\<not> revents_errval ?r < 0" "revents ?r AND POLLOUT \<noteq> 0"
    "pcm_state ?r \<noteq> SND_PCM_STATE_XRUN" "pcm_state ?r \<noteq> SND_PCM_STATE_SUSPENDED"
    "0 \<le> writei_ret ?r"
    "writei_ret ?r < min (frames_available ?r)
                       (frames_to_write_from_local_buffer (snd (refill 4 4 (initial []))))"
    "local_data_ptr (snd (refill 4 4 (initial []))) = Some 0"
    by (simp_all add: device_response_def POLLOUT_def refill_initial_4)
  from short_write_advances_by_accepted
         [OF h, of "device_response SND_PCM_STATE_RUNNING 2 2 0 0"]
  obtain s' where
    "snd (loop_body 4 4 ?r (initial [])) = Continue s'"
    "writes_of (fst (loop_body 4 4 ?r (initial []))) =
       [(Some 0, min (frames_available ?r)
                   (frames_to_write_from_local_buffer (snd (refill 4 4 (initial [])))))]"
    "local_data_ptr s' = Some (0 + writei_ret ?r)"
    "frames_to_write_from_local_buffer s' =
       frames_to_write_from_local_buffer (snd (refill 4 4 (initial []))) - writei_ret ?r"
    "\<forall>p m. (p, m) \<in> set (writes_of
               (fst (loop_body 4 4 (device_response SND_PCM_STATE_RUNNING 2 2 0 0) s')))
             \<longrightarrow> p = Some (0 + writei_ret ?r)"
    by blast
  moreover have
    "fst (run 4 4 [device_response SND_PCM_STATE_RUNNING 3 1 0 0,
                   device_response SND_PCM_STATE_RUNNING 2 2 0 0] (initial [])) =
       [Generate 4, Select, PollRevents, PcmState, AvailUpdate, Writei (Some 0) 3 1,
        Select, PollRevents, PcmState, AvailUpdate, Writei (Some 1) 2 2]"
    by (simp add: loop_body_def refill_def on_writable_def device_response_def initial_def
        generate_4_4 POLLOUT_def Let_def)
  ultimately show ?thesis
    using h by (auto simp: device_response_def refill_initial_4)
qed

subsection \<open>Recovery\<close>

lemma on_writable_recovery_state:
  "Prepare \<in> set (fst (on_writable r s)) \<or> Resume \<in> set (fst (on_writable r s)) \<Longrightarrow>
   snd (on_writable r s) = Continue s' \<Longrightarrow> s' = s"
  by (simp add: on_writable_def Let_def split: if_splits)

lemma refill_no_recovery:
  "Prepare \<notin> set (fst (refill cap rate s)) \<and> Resume \<notin> set (fst (refill cap rate s))"
  by (simp add: refill_calls)

lemma loop_body_recovery_state:
  assumes "Prepare \<in> set (fst (loop_body cap rate r s)) \<or>
           Resume \<in> set (fst (loop_body cap rate r s))"
    and "snd (loop_body cap rate r s) = Continue s'"
  shows "s' = snd (refill cap rate s)"
  using assms refill_no_recovery[of cap rate s]
    on_writable_recovery_state[of r "snd (refill cap rate s)" s']
  by (auto simp: loop_body_unfold split: if_splits)

lemma avail_underrun_body:
  assumes "select_ret r \<noteq> - 1" "\<not> revents_errval r < 0" "revents r AND POLLOUT \<noteq> 0"
    "pcm_state r \<noteq> SND_PCM_STATE_XRUN" "pcm_state r \<noteq> SND_PCM_STATE_SUSPENDED"
    "frames_available r = - EPIPE"
  shows "loop_body cap rate r s =
     (fst (refill cap rate s) @ [Select, PollRevents, PcmState, AvailUpdate, Prepare],
      if prepare_ret r < 0 then Exit PrepareAfterAvailXrun (prepare_ret r)
      else Continue (snd (refill cap rate s)))"
  using assms by (simp add: loop_body_unfold on_writable_def EPIPE_def)

text \<open>
  C5: an iteration that calls prepare or resume and goes on leaves the state as the
  refill at its head left it: pointer, remaining count, buffer and phase are those the
  fault was found with, and those of the iteration's start when frames remained. When
  the space query returns \<open>- EPIPE\<close>, the calls after it are one prepare and nothing
  else, so that no write comes between the report and the prepare, and the iteration
  ends there.
\<close>

theorem recovery_keeps_cursor:
  "((Prepare \<in> set (fst (loop_body cap rate r s)) \<or>
     Resume \<in> set (fst (loop_body cap rate r s))) \<and>
    snd (loop_body cap rate r s) = Continue s' \<longrightarrow>
      s' = snd (refill cap rate s) \<and>
      (frames_to_write_from_local_buffer s \<noteq> 0 \<longrightarrow> s' = s)) \<and>
   (select_ret r \<noteq> - 1 \<and> \<not> revents_errval r < 0 \<and> revents r AND POLLOUT \<noteq> 0 \<and>
    pcm_state r \<noteq> SND_PCM_STATE_XRUN \<and> pcm_state r \<noteq> SND_PCM_STATE_SUSPENDED \<and>
    frames_available r = - EPIPE \<longrightarrow>
      loop_body cap rate r s =
        (fst (refill cap rate s) @ [Select, PollRevents, PcmState, AvailUpdate, Prepare],
         if prepare_ret r < 0 then Exit PrepareAfterAvailXrun (prepare_ret r)
         else Continue (snd (refill cap rate s))))"
  using loop_body_recovery_state[of cap rate r s s'] avail_underrun_body[of r cap rate s]
    refill_nonempty[of s cap rate]
  by auto

theorem recovery_keeps_cursor_witness:
  "Prepare \<in> set (fst (loop_body 4 4 (device_response SND_PCM_STATE_RUNNING (- 32) 0 0 0)
                          \<lparr>local_data_buffer = [1, 2, 3, 4], local_data_ptr = Some 1,
                           frames_to_write_from_local_buffer = 3, phase = 0\<rparr>)) \<and>
   frames_available (device_response SND_PCM_STATE_RUNNING (- 32) 0 0 0) = - EPIPE \<and>
   loop_body 4 4 (device_response SND_PCM_STATE_RUNNING (- 32) 0 0 0)
     \<lparr>local_data_buffer = [1, 2, 3, 4], local_data_ptr = Some 1,
      frames_to_write_from_local_buffer = 3, phase = 0\<rparr> =
     ([Select, PollRevents, PcmState, AvailUpdate, Prepare],
      Continue \<lparr>local_data_buffer = [1, 2, 3, 4], local_data_ptr = Some 1,
                frames_to_write_from_local_buffer = 3, phase = 0\<rparr>) \<and>
   run 4 4 [device_response SND_PCM_STATE_RUNNING (- 32) 0 0 0,
            device_response SND_PCM_STATE_RUNNING 2 2 0 0]
     \<lparr>local_data_buffer = [1, 2, 3, 4], local_data_ptr = Some 1,
      frames_to_write_from_local_buffer = 3, phase = 0\<rparr> =
     ([Select, PollRevents, PcmState, AvailUpdate, Prepare,
       Select, PollRevents, PcmState, AvailUpdate, Writei (Some 1) 2 2],
      Continue \<lparr>local_data_buffer = [1, 2, 3, 4], local_data_ptr = Some 3,
                frames_to_write_from_local_buffer = 1, phase = 0\<rparr>)"
proof -
  let ?r = "device_response SND_PCM_STATE_RUNNING (- 32) 0 0 0"
  let ?s = "\<lparr>local_data_buffer = [1, 2, 3, 4], local_data_ptr = Some 1,
             frames_to_write_from_local_buffer = 3, phase = 0\<rparr>"
  have h: "select_ret ?r \<noteq> - 1 \<and> \<not> revents_errval ?r < 0 \<and> revents ?r AND POLLOUT \<noteq> 0 \<and>
      pcm_state ?r \<noteq> SND_PCM_STATE_XRUN \<and> pcm_state ?r \<noteq> SND_PCM_STATE_SUSPENDED \<and>
      frames_available ?r = - EPIPE"
    by (simp add: device_response_def POLLOUT_def EPIPE_def)
  have r: "refill 4 4 ?s = ([], ?s)"
    by (simp add: refill_def)
  have body: "loop_body 4 4 ?r ?s =
      ([Select, PollRevents, PcmState, AvailUpdate, Prepare], Continue ?s)"
    using recovery_keeps_cursor[of 4 4 ?r ?s] h by (simp add: r device_response_def)
  have two: "run 4 4 [?r, device_response SND_PCM_STATE_RUNNING 2 2 0 0] ?s =
     ([Select, PollRevents, PcmState, AvailUpdate, Prepare,
       Select, PollRevents, PcmState, AvailUpdate, Writei (Some 1) 2 2],
      Continue \<lparr>local_data_buffer = [1, 2, 3, 4], local_data_ptr = Some 3,
                frames_to_write_from_local_buffer = 1, phase = 0\<rparr>)"
    by (simp add: loop_body_def refill_def on_writable_def device_response_def
        POLLOUT_def EPIPE_def Let_def)
  show ?thesis
    using h body two by simp
qed

subsection \<open>An interrupted wait\<close>

lemma interrupted_body:
  "select_ret r = - 1 \<Longrightarrow> select_errno r = EINTR \<Longrightarrow>
   loop_body cap rate r s =
     (fst (refill cap rate s) @ [Select], Continue (snd (refill cap rate s)))"
  by (simp add: loop_body_unfold)

lemma loop_body_select:
  "\<exists>cs. fst (loop_body cap rate r s) = fst (refill cap rate s) @ Select # cs"
  by (simp add: loop_body_unfold)

text \<open>
  C7: when \<^verbatim>\<open>select\<close> returns \<open>- 1\<close> with \<^verbatim>\<open>errno\<close> \<open>EINTR\<close>, the iteration ends after
  the wait without leaving the process and without a device call, and the loop goes on
  from the state the refill left: the run is the run of the remaining iterations from
  that state, each of which calls \<^verbatim>\<open>select\<close> again before anything else on the device.
\<close>

theorem interrupted_wait_retried:
  assumes "select_ret r = - 1" "select_errno r = EINTR"
  shows "loop_body cap rate r s =
           (fst (refill cap rate s) @ [Select], Continue (snd (refill cap rate s))) \<and>
         run cap rate (r # rs) s =
           (fst (refill cap rate s) @ [Select]
              @ fst (run cap rate rs (snd (refill cap rate s))),
            snd (run cap rate rs (snd (refill cap rate s)))) \<and>
         (\<exists>cs. fst (loop_body cap rate r' (snd (refill cap rate s))) =
                 fst (refill cap rate (snd (refill cap rate s))) @ Select # cs)"
  using interrupted_body[OF assms, of cap rate s]
    run_Cons_Continue[of cap rate r s _ _ rs]
    loop_body_select[of cap rate r' "snd (refill cap rate s)"]
  by simp

theorem interrupted_wait_retried_witness:
  "select_ret ((device_response SND_PCM_STATE_RUNNING 2 2 0 0)
                 \<lparr>select_ret := - 1, select_errno := 4\<rparr>) = - 1 \<and>
   select_errno ((device_response SND_PCM_STATE_RUNNING 2 2 0 0)
                   \<lparr>select_ret := - 1, select_errno := 4\<rparr>) = EINTR \<and>
   run 4 4 [(device_response SND_PCM_STATE_RUNNING 2 2 0 0)
              \<lparr>select_ret := - 1, select_errno := 4\<rparr>,
            device_response SND_PCM_STATE_RUNNING 2 2 0 0] (initial []) =
     ([Generate 4, Select, Select, PollRevents, PcmState, AvailUpdate, Writei (Some 0) 2 2],
      Continue \<lparr>local_data_buffer = [sample 4 0, sample 4 1, sample 4 2, sample 4 3],
                local_data_ptr = Some 2, frames_to_write_from_local_buffer = 2,
                phase = 0\<rparr>)"
proof -
  let ?r = "(device_response SND_PCM_STATE_RUNNING 2 2 0 0)
              \<lparr>select_ret := - 1, select_errno := 4\<rparr>"
  have h: "select_ret ?r = - 1" "select_errno ?r = EINTR"
    by (simp_all add: EINTR_def)
  have eq: "run 4 4 [?r, device_response SND_PCM_STATE_RUNNING 2 2 0 0] (initial []) =
          (fst (refill 4 4 (initial [])) @ [Select]
             @ fst (run 4 4 [device_response SND_PCM_STATE_RUNNING 2 2 0 0]
                      (snd (refill 4 4 (initial [])))),
           snd (run 4 4 [device_response SND_PCM_STATE_RUNNING 2 2 0 0]
                  (snd (refill 4 4 (initial [])))))"
    using interrupted_wait_retried[OF h] by blast
  have g: "fst (refill 4 4 (initial [])) = [Generate 4]"
    and s1: "snd (refill 4 4 (initial [])) =
      \<lparr>local_data_buffer = [sample 4 0, sample 4 1, sample 4 2, sample 4 3],
       local_data_ptr = Some 0, frames_to_write_from_local_buffer = 4, phase = 0\<rparr>"
    by (simp_all add: refill_initial_4)
  have rest: "run 4 4 [device_response SND_PCM_STATE_RUNNING 2 2 0 0]
      \<lparr>local_data_buffer = [sample 4 0, sample 4 1, sample 4 2, sample 4 3],
       local_data_ptr = Some 0, frames_to_write_from_local_buffer = 4, phase = 0\<rparr> =
     ([Select, PollRevents, PcmState, AvailUpdate, Writei (Some 0) 2 2],
      Continue \<lparr>local_data_buffer = [sample 4 0, sample 4 1, sample 4 2, sample 4 3],
                local_data_ptr = Some 2, frames_to_write_from_local_buffer = 2,
                phase = 0\<rparr>)"
    by (simp add: loop_body_def refill_def on_writable_def
        device_response_def POLLOUT_def Let_def)
  show ?thesis
    unfolding eq g s1 rest using h by simp
qed

subsection \<open>Iterations without the writable event\<close>

lemma not_writable_body:
  assumes "revents r AND POLLOUT = 0"
  shows "writes_of (fst (loop_body cap rate r s)) = []"
    and "snd (loop_body cap rate r s) = Continue s' \<Longrightarrow> s' = snd (refill cap rate s)"
  using assms
  by (auto simp: loop_body_unfold writes_of_append writes_of_refill split: if_splits)

lemma write_needs_writable:
  "writes_of (fst (loop_body cap rate r s)) \<noteq> [] \<Longrightarrow> revents r AND POLLOUT \<noteq> 0"
  using not_writable_body(1)[of r cap rate s] by blast

text \<open>
  C10, as stated, fails: the refill belongs to the iteration and comes before the wait.
  From the initial state (no frames left, pointer \<^verbatim>\<open>NULL\<close>) an iteration whose
  \<^verbatim>\<open>revents\<close> is 0 makes no write, yet ends with the pointer at the start of the
  buffer, 4 frames remaining and the buffer regenerated.
\<close>

theorem not_writable_iteration_refills:
  "revents ((device_response SND_PCM_STATE_RUNNING 0 0 0 0)\<lparr>revents := 0\<rparr>) AND POLLOUT = 0 \<and>
   initial [0, 0, 0, 0] =
     \<lparr>local_data_buffer = [0, 0, 0, 0], local_data_ptr = None,
      frames_to_write_from_local_buffer = 0, phase = 0\<rparr> \<and>
   loop_body 4 4 ((device_response SND_PCM_STATE_RUNNING 0 0 0 0)\<lparr>revents := 0\<rparr>)
     (initial [0, 0, 0, 0]) =
     ([Generate 4, Select, PollRevents],
      Continue \<lparr>local_data_buffer = [sample 4 0, sample 4 1, sample 4 2, sample 4 3],
                local_data_ptr = Some 0, frames_to_write_from_local_buffer = 4,
                phase = 0\<rparr>) \<and>
   snd (loop_body 4 4 ((device_response SND_PCM_STATE_RUNNING 0 0 0 0)\<lparr>revents := 0\<rparr>)
          (initial [0, 0, 0, 0])) \<noteq> Continue (initial [0, 0, 0, 0])"
proof -
  have "revents ((device_response SND_PCM_STATE_RUNNING 0 0 0 0)\<lparr>revents := 0\<rparr>)
          AND POLLOUT = 0"
    by simp
  moreover have "initial [0, 0, 0, 0] =
     \<lparr>local_data_buffer = [0, 0, 0, 0], local_data_ptr = None,
      frames_to_write_from_local_buffer = 0, phase = 0\<rparr>"
    by (simp add: initial_def)
  moreover have
    "loop_body 4 4 ((device_response SND_PCM_STATE_RUNNING 0 0 0 0)\<lparr>revents := 0\<rparr>)
       (initial [0, 0, 0, 0]) =
     ([Generate 4, Select, PollRevents],
      Continue \<lparr>local_data_buffer = [sample 4 0, sample 4 1, sample 4 2, sample 4 3],
                local_data_ptr = Some 0, frames_to_write_from_local_buffer = 4,
                phase = 0\<rparr>)"
    by (simp add: loop_body_unfold refill_initial_4 device_response_def)
  ultimately show ?thesis
    by (simp add: initial_def)
qed

text \<open>
  C10, amended: in an iteration whose \<^verbatim>\<open>revents\<close> lacks the writable event no write is
  made, and the state it ends with is the one the refill at its head left: the state of
  the iteration's start when frames remained, the refilled one (offset 0, a full
  buffer) when none did. An iteration that makes a write had the writable event.
\<close>

theorem not_writable_no_write:
  "(revents r AND POLLOUT = 0 \<longrightarrow>
      writes_of (fst (loop_body cap rate r s)) = [] \<and>
      (\<forall>s'. snd (loop_body cap rate r s) = Continue s' \<longrightarrow>
         s' = snd (refill cap rate s) \<and>
         (frames_to_write_from_local_buffer s \<noteq> 0 \<longrightarrow> s' = s))) \<and>
   (writes_of (fst (loop_body cap rate r s)) \<noteq> [] \<longrightarrow> revents r AND POLLOUT \<noteq> 0)"
  using not_writable_body[of r cap rate s] write_needs_writable[of cap rate r s]
    refill_nonempty[of s cap rate]
  by auto

theorem not_writable_no_write_witness:
  "revents ((device_response SND_PCM_STATE_RUNNING 2 2 0 0)\<lparr>revents := POLLERR\<rparr>)
     AND POLLOUT = 0 \<and>
   loop_body 4 4 ((device_response SND_PCM_STATE_RUNNING 2 2 0 0)\<lparr>revents := POLLERR\<rparr>)
     \<lparr>local_data_buffer = [1, 2, 3, 4], local_data_ptr = Some 1,
      frames_to_write_from_local_buffer = 3, phase = 0\<rparr> =
     ([Select, PollRevents],
      Continue \<lparr>local_data_buffer = [1, 2, 3, 4], local_data_ptr = Some 1,
                frames_to_write_from_local_buffer = 3, phase = 0\<rparr>) \<and>
   writes_of (fst (loop_body 4 4 (device_response SND_PCM_STATE_RUNNING 2 2 0 0)
                     \<lparr>local_data_buffer = [1, 2, 3, 4], local_data_ptr = Some 1,
                      frames_to_write_from_local_buffer = 3, phase = 0\<rparr>)) \<noteq> [] \<and>
   revents (device_response SND_PCM_STATE_RUNNING 2 2 0 0) AND POLLOUT \<noteq> 0"
  using not_writable_no_write
    [of "(device_response SND_PCM_STATE_RUNNING 2 2 0 0)\<lparr>revents := POLLERR\<rparr>" 4 4
        "\<lparr>local_data_buffer = [1, 2, 3, 4], local_data_ptr = Some 1,
          frames_to_write_from_local_buffer = 3, phase = 0\<rparr>"]
    not_writable_no_write
    [of "device_response SND_PCM_STATE_RUNNING 2 2 0 0" 4 4
        "\<lparr>local_data_buffer = [1, 2, 3, 4], local_data_ptr = Some 1,
          frames_to_write_from_local_buffer = 3, phase = 0\<rparr>"]
  by (simp add: device_response_def POLLOUT_def POLLERR_def loop_body_unfold refill_def
      on_writable_def Let_def)

subsection \<open>Suspension\<close>






subsection \<open>Result codes at the two call sites\<close>

lemma avail_unclassified_exits:
  assumes "select_ret r \<noteq> - 1" "\<not> revents_errval r < 0" "revents r AND POLLOUT \<noteq> 0"
    "pcm_state r \<noteq> SND_PCM_STATE_XRUN" "pcm_state r \<noteq> SND_PCM_STATE_SUSPENDED"
    "frames_available r < 0" "frames_available r \<noteq> - EPIPE"
  shows "loop_body cap rate r s =
     (fst (refill cap rate s) @ [Select, PollRevents, PcmState, AvailUpdate],
      Exit AvailUpdateSite (long_to_int (frames_available r)))"
  using assms by (simp add: loop_body_unfold on_writable_def)

lemma long_to_int_in_range:
  "- (2 ^ 31) \<le> x \<Longrightarrow> x < 2 ^ 31 \<Longrightarrow> long_to_int x = x"
  by (simp add: long_to_int_def signed_take_bit_int_eq_self)

lemma writei_unclassified_exits:
  assumes "select_ret r \<noteq> - 1" "\<not> revents_errval r < 0" "revents r AND POLLOUT \<noteq> 0"
    "pcm_state r \<noteq> SND_PCM_STATE_XRUN" "pcm_state r \<noteq> SND_PCM_STATE_SUSPENDED"
    "0 < frames_available r"
    "0 < frames_to_write_from_local_buffer (snd (refill cap rate s))"
    "writei_ret r < 0" "writei_ret r \<noteq> - EPIPE" "writei_ret r \<noteq> - ESTRPIPE"
  shows "loop_body cap rate r s =
     (fst (refill cap rate s) @
        [Select, PollRevents, PcmState, AvailUpdate,
         Writei (local_data_ptr (snd (refill cap rate s)))
           (min (frames_available r)
              (frames_to_write_from_local_buffer (snd (refill cap rate s))))
           (writei_ret r)],
      Exit WriteiSite (writei_ret r))"
  using assms by (simp add: loop_body_unfold on_writable_def Let_def min_def)

text \<open>
  C3: the two call sites do not treat \<open>- ESTRPIPE\<close> alike. Returned by
  \<^verbatim>\<open>snd_pcm_avail_update\<close> it ends the process at once, reported as the code of that
  call; returned by \<^verbatim>\<open>snd_pcm_writei\<close> in the same situation it is recovered by
  resume and prepare, and the loop goes on.
\<close>

theorem suspended_code_fatal_at_space_query:
  "- ESTRPIPE = - 86 \<and>
   loop_body 4 4 (device_response SND_PCM_STATE_RUNNING (- 86) 0 0 0) (initial [0, 0, 0, 0]) =
     ([Generate 4, Select, PollRevents, PcmState, AvailUpdate],
      Exit AvailUpdateSite (- 86)) \<and>
   loop_body 4 4 (device_response SND_PCM_STATE_RUNNING 2 (- 86) 0 0) (initial [0, 0, 0, 0]) =
     ([Generate 4, Select, PollRevents, PcmState, AvailUpdate, Writei (Some 0) 2 (- 86),
       Resume, Prepare],
      Continue \<lparr>local_data_buffer = [sample 4 0, sample 4 1, sample 4 2, sample 4 3],
                local_data_ptr = Some 0, frames_to_write_from_local_buffer = 4,
                phase = 0\<rparr>)"
  by (simp add: loop_body_unfold refill_initial_4 on_writable_def device_response_def
      POLLOUT_def EPIPE_def ESTRPIPE_def Let_def long_to_int_def)

section \<open>Runs\<close>

subsection \<open>Frames written and frames generated\<close>

lemma on_writable_balance:
  assumes "0 \<le> frames_to_write_from_local_buffer s"
    and "\<forall>c \<in> set (fst (on_writable r s)). accepted_within c"
  shows "frames_generated (fst (on_writable r s)) = 0 \<and>
         frames_written (fst (on_writable r s)) \<le> frames_to_write_from_local_buffer s \<and>
         (\<forall>s'. snd (on_writable r s) = Continue s' \<longrightarrow>
            frames_to_write_from_local_buffer s' =
              frames_to_write_from_local_buffer s - frames_written (fst (on_writable r s)))"
  using assms by (auto simp: on_writable_def Let_def split: if_splits)

lemma loop_body_balance:
  assumes "0 \<le> frames_to_write_from_local_buffer s"
    and "\<forall>c \<in> set (fst (loop_body cap rate r s)). accepted_within c"
  shows "frames_written (fst (loop_body cap rate r s)) \<le>
           int (frames_generated (fst (loop_body cap rate r s)))
             + frames_to_write_from_local_buffer s \<and>
         (\<forall>s'. snd (loop_body cap rate r s) = Continue s' \<longrightarrow>
            0 \<le> frames_to_write_from_local_buffer s' \<and>
            frames_written (fst (loop_body cap rate r s))
              + frames_to_write_from_local_buffer s' =
            int (frames_generated (fst (loop_body cap rate r s)))
              + frames_to_write_from_local_buffer s)"
proof -
  let ?s1 = "snd (refill cap rate s)"
  have f1: "frames_to_write_from_local_buffer ?s1 =
              int (frames_generated (fst (refill cap rate s)))
                + frames_to_write_from_local_buffer s"
    by (simp add: refill_frames refill_calls)
  have w1: "frames_written (fst (refill cap rate s)) = 0"
    by (simp add: refill_calls)
  have p1: "0 \<le> frames_to_write_from_local_buffer ?s1"
    using assms(1) by (simp add: refill_frames)
  show ?thesis
  proof (cases "select_ret r \<noteq> - 1 \<and> \<not> revents_errval r < 0 \<and> revents r AND POLLOUT \<noteq> 0")
    case True
    then have cs: "fst (loop_body cap rate r s) =
                     fst (refill cap rate s) @ [Select, PollRevents] @ fst (on_writable r ?s1)"
      and out: "snd (loop_body cap rate r s) = snd (on_writable r ?s1)"
      by (simp_all add: loop_body_unfold)
    from assms(2) cs have "\<forall>c \<in> set (fst (on_writable r ?s1)). accepted_within c"
      by simp
    from on_writable_balance[OF p1 this] show ?thesis
      using f1 w1 by (simp add: cs out frames_written_append frames_generated_append)
  next
    case False
    then show ?thesis
      using f1 w1 p1
      by (auto simp: loop_body_unfold frames_written_append frames_generated_append
          split: if_splits)
  qed
qed

lemma run_balance:
  assumes "0 \<le> frames_to_write_from_local_buffer s"
    and "\<forall>c \<in> set (fst (run cap rate rs s)). accepted_within c"
  shows "frames_written (fst (run cap rate rs s)) \<le>
           int (frames_generated (fst (run cap rate rs s)))
             + frames_to_write_from_local_buffer s \<and>
         (\<forall>s'. snd (run cap rate rs s) = Continue s' \<longrightarrow>
            0 \<le> frames_to_write_from_local_buffer s' \<and>
            frames_written (fst (run cap rate rs s)) + frames_to_write_from_local_buffer s' =
            int (frames_generated (fst (run cap rate rs s)))
              + frames_to_write_from_local_buffer s)"
  using assms
proof (induction rs arbitrary: s)
  case Nil
  then show ?case by simp
next
  case (Cons r rs)
  obtain cs out where lb: "loop_body cap rate r s = (cs, out)"
    by (cases "loop_body cap rate r s")
  show ?case
  proof (cases out)
    case (Exit a c)
    with lb have run: "run cap rate (r # rs) s = (cs, Exit a c)"
      by simp
    from loop_body_balance[of s cap rate r] Cons.prems lb show ?thesis
      unfolding run by simp
  next
    case (Continue s1)
    with lb have run: "run cap rate (r # rs) s =
        (cs @ fst (run cap rate rs s1), snd (run cap rate rs s1))"
      by (simp add: case_prod_beta)
    from Cons.prems(2) run have a1: "\<forall>c \<in> set cs. accepted_within c"
      and a2: "\<forall>c \<in> set (fst (run cap rate rs s1)). accepted_within c"
      by simp_all
    from loop_body_balance[of s cap rate r] Cons.prems(1) a1 lb Continue
    have b1: "0 \<le> frames_to_write_from_local_buffer s1"
      and b2: "frames_written cs + frames_to_write_from_local_buffer s1 =
                 int (frames_generated cs) + frames_to_write_from_local_buffer s"
      by simp_all
    from Cons.IH[OF b1 a2] b2 show ?thesis
      unfolding run by (auto simp add: frames_written_append frames_generated_append)
  qed
qed

text \<open>
  C6: from the initial state, over any list of iterations and whatever the device
  returns in them (counts and faults alike), if every write accepted no more frames than
  it was asked for, the frames written never exceed the frames generated, and the
  remaining count of the state reached is not negative; the two totals differ by
  exactly that count.
\<close>

theorem written_never_exceeds_generated:
  assumes "\<forall>c \<in> set (fst (run cap rate rs (initial b))). accepted_within c"
  shows "frames_written (fst (run cap rate rs (initial b))) \<le>
           int (frames_generated (fst (run cap rate rs (initial b)))) \<and>
         (\<forall>s'. snd (run cap rate rs (initial b)) = Continue s' \<longrightarrow>
            0 \<le> frames_to_write_from_local_buffer s' \<and>
            frames_written (fst (run cap rate rs (initial b)))
              + frames_to_write_from_local_buffer s' =
            int (frames_generated (fst (run cap rate rs (initial b)))))"
  using run_balance[of "initial b" cap rate rs] assms by (simp add: initial_def)

theorem written_never_exceeds_generated_witness:
  "list_all accepted_within
     (fst (run 4 4 [device_response SND_PCM_STATE_RUNNING 3 1 0 0,
                    device_response SND_PCM_STATE_RUNNING 2 2 0 0] (initial []))) \<and>
   fst (run 4 4 [device_response SND_PCM_STATE_RUNNING 3 1 0 0,
                 device_response SND_PCM_STATE_RUNNING 2 2 0 0] (initial [])) =
     [Generate 4, Select, PollRevents, PcmState, AvailUpdate, Writei (Some 0) 3 1,
      Select, PollRevents, PcmState, AvailUpdate, Writei (Some 1) 2 2] \<and>
   frames_written (fst (run 4 4 [device_response SND_PCM_STATE_RUNNING 3 1 0 0,
                                 device_response SND_PCM_STATE_RUNNING 2 2 0 0] (initial [])))
     \<le> int (frames_generated
              (fst (run 4 4 [device_response SND_PCM_STATE_RUNNING 3 1 0 0,
                             device_response SND_PCM_STATE_RUNNING 2 2 0 0] (initial []))))"
proof -
  have tr: "fst (run 4 4 [device_response SND_PCM_STATE_RUNNING 3 1 0 0,
                          device_response SND_PCM_STATE_RUNNING 2 2 0 0] (initial [])) =
     [Generate 4, Select, PollRevents, PcmState, AvailUpdate, Writei (Some 0) 3 1,
      Select, PollRevents, PcmState, AvailUpdate, Writei (Some 1) 2 2]"
    by (simp add: loop_body_def refill_def on_writable_def device_response_def initial_def
        generate_4_4 POLLOUT_def Let_def)
  then have h: "\<forall>c \<in> set (fst (run 4 4 [device_response SND_PCM_STATE_RUNNING 3 1 0 0,
                              device_response SND_PCM_STATE_RUNNING 2 2 0 0] (initial []))).
      accepted_within c"
    by simp
  from written_never_exceeds_generated[OF h] h tr show ?thesis
    unfolding list_all_iff by blast
qed

subsection \<open>The phase over a run\<close>

lemma on_writable_phase:
  "snd (on_writable r s) = Continue s' \<Longrightarrow> phase s' = phase s"
  by (auto simp: on_writable_def Let_def split: if_splits)

lemma on_writable_generates_nothing: "frames_generated (fst (on_writable r s)) = 0"
  by (simp add: on_writable_def Let_def)

lemma loop_body_phase:
  "snd (loop_body cap rate r s) = Continue s' \<Longrightarrow>
     phase s' = phase (snd (refill cap rate s))"
  by (auto simp: loop_body_unfold dest: on_writable_phase split: if_splits)

lemma loop_body_generated:
  "frames_generated (fst (loop_body cap rate r s)) =
     (if frames_to_write_from_local_buffer s = 0 then cap else 0)"
  by (simp add: loop_body_unfold frames_generated_append refill_calls
      on_writable_generates_nothing)

lemma loop_body_phase_mod:
  assumes "0 < rate" "phase s < rate" "snd (loop_body cap rate r s) = Continue s'"
  shows "phase s' = (phase s + frames_generated (fst (loop_body cap rate r s))) mod rate"
  using assms loop_body_phase[OF assms(3)]
  by (simp add: refill_phase loop_body_generated generate_data_phase)

lemma run_phase_mod:
  assumes "0 < rate" "phase s < rate" "snd (run cap rate rs s) = Continue s'"
  shows "phase s' = (phase s + frames_generated (fst (run cap rate rs s))) mod rate"
  using assms
proof (induction rs arbitrary: s)
  case Nil
  then show ?case by simp
next
  case (Cons r rs)
  obtain cs out where lb: "loop_body cap rate r s = (cs, out)"
    by (cases "loop_body cap rate r s")
  show ?case
  proof (cases out)
    case (Exit a c)
    with lb have "run cap rate (r # rs) s = (cs, Exit a c)"
      by simp
    with Cons.prems(3) show ?thesis
      by simp
  next
    case (Continue s1)
    with lb have run: "run cap rate (r # rs) s =
        (cs @ fst (run cap rate rs s1), snd (run cap rate rs s1))"
      by (simp add: case_prod_beta)
    have p1: "phase s1 = (phase s + frames_generated cs) mod rate"
      using loop_body_phase_mod[of rate s cap r s1] Cons.prems(1,2) lb Continue by simp
    then have "phase s1 < rate"
      using Cons.prems(1) by simp
    moreover have "snd (run cap rate rs s1) = Continue s'"
      using Cons.prems(3) unfolding run by simp
    ultimately have "phase s' =
        (phase s1 + frames_generated (fst (run cap rate rs s1))) mod rate"
      using Cons.IH[of s1] Cons.prems(1) by simp
    then show ?thesis
      unfolding run by (simp add: p1 frames_generated_append mod_add_left_eq add.assoc)
  qed
qed

text \<open>
  C8, for a rate in the range where the float phase is exact: a call generating \<open>n\<close>
  samples from a phase below the rate leaves \<open>(phase + n) mod rate\<close>, which is below
  the rate. An iteration of the loop leaves the phase alone, except that its refill,
  when no frames remained, passes it through the generator. So after any run from the
  initial state the phase is the number of samples generated so far, modulo the rate.
\<close>

theorem phase_wrapped_and_owned:
  assumes "exact_rate rate"
  shows "(ph < rate \<longrightarrow>
            snd (generate_data n rate ph) = (ph + n) mod rate \<and>
            snd (generate_data n rate ph) < rate) \<and>
         (\<forall>s'. snd (loop_body cap rate r s) = Continue s' \<longrightarrow>
            phase s' = (if frames_to_write_from_local_buffer s = 0
                        then snd (generate_data cap rate (phase s)) else phase s)) \<and>
         (\<forall>s'. snd (run cap rate rs (initial b)) = Continue s' \<longrightarrow>
            phase s' = frames_generated (fst (run cap rate rs (initial b))) mod rate \<and>
            phase s' < rate)"
proof -
  from assms have pos: "0 < rate"
    by (simp add: exact_rate_def)
  have a: "ph < rate \<longrightarrow>
            snd (generate_data n rate ph) = (ph + n) mod rate \<and>
            snd (generate_data n rate ph) < rate"
    using pos by (simp add: generate_data_phase)
  have b: "\<forall>s'. snd (loop_body cap rate r s) = Continue s' \<longrightarrow>
            phase s' = (if frames_to_write_from_local_buffer s = 0
                        then snd (generate_data cap rate (phase s)) else phase s)"
    using loop_body_phase[of cap rate r s] by (simp add: refill_phase)
  have c: "\<forall>s'. snd (run cap rate rs (initial b)) = Continue s' \<longrightarrow>
            phase s' = frames_generated (fst (run cap rate rs (initial b))) mod rate \<and>
            phase s' < rate"
    using run_phase_mod[of rate "initial b" cap rs] pos by (simp add: initial_def)
  from a b c show ?thesis
    by blast
qed

theorem phase_wrapped_and_owned_witness:
  "exact_rate 4 \<and> (3::nat) < 4 \<and> snd (generate_data 6 4 3) = 1 \<and>
   snd (run 3 4 [device_response SND_PCM_STATE_RUNNING 3 3 0 0,
                 device_response SND_PCM_STATE_RUNNING 3 3 0 0] (initial [])) =
     Continue \<lparr>local_data_buffer = [sample 4 3, sample 4 0, sample 4 1],
               local_data_ptr = Some 3, frames_to_write_from_local_buffer = 0,
               phase = 2\<rparr> \<and>
   frames_generated
     (fst (run 3 4 [device_response SND_PCM_STATE_RUNNING 3 3 0 0,
                    device_response SND_PCM_STATE_RUNNING 3 3 0 0] (initial []))) = 6"
proof -
  have e: "exact_rate 4"
    by (simp add: exact_rate_def)
  have g: "snd (generate_data 6 4 3) = (3 + 6) mod 4"
    using phase_wrapped_and_owned[OF e, of 3 6] by simp
  have g0: "generate_data 3 4 0 = ([sample 4 0, sample 4 1, sample 4 2], 3)"
    and g3: "generate_data 3 4 3 = ([sample 4 3, sample 4 0, sample 4 1], 2)"
    by (simp_all add: numeral_eq_Suc Let_def)
  have "run 3 4 [device_response SND_PCM_STATE_RUNNING 3 3 0 0,
                 device_response SND_PCM_STATE_RUNNING 3 3 0 0] (initial []) =
     ([Generate 3, Select, PollRevents, PcmState, AvailUpdate, Writei (Some 0) 3 3,
       Generate 3, Select, PollRevents, PcmState, AvailUpdate, Writei (Some 0) 3 3],
      Continue \<lparr>local_data_buffer = [sample 4 3, sample 4 0, sample 4 1],
                local_data_ptr = Some 3, frames_to_write_from_local_buffer = 0,
                phase = 2\<rparr>)"
    by (simp add: loop_body_def refill_def on_writable_def device_response_def initial_def
        POLLOUT_def Let_def g0 g3)
  then show ?thesis
    using e g by simp
qed

section \<open>The draft\<close>

text \<open>
  Where \<^verbatim>\<open>alsa.c\<close> stands on the properties above. Its cursor moves by the accepted
  count as well, but the write does not read it: every request starts at the head of
  the buffer. Its phase grows by one per sample and is never wrapped. An interrupted
  wait ends the process. A write is made only with the writable event, and without it
  the iteration changes nothing, the refill being inside that branch.
\<close>

lemma draft_generate_data_phase: "snd (draft_generate_data n rate ph) = ph + n"
  by (induction n arbitrary: ph) (simp_all add: Let_def case_prod_beta)

lemma draft_writes_from_head:
  "(p, m) \<in> set (writes_of (fst (draft_loop_body data_size rate r s))) \<Longrightarrow> p = Some 0"
  by (auto simp: draft_loop_body_def Let_def case_prod_beta writes_of_append
      split: if_splits)

lemma draft_interrupted_exits:
  "select_ret r = - 1 \<Longrightarrow>
   draft_loop_body data_size rate r s = ([Select], Exit SelectSite (select_errno r))"
  by (simp add: draft_loop_body_def)

lemma draft_not_writable:
  "select_ret r \<noteq> - 1 \<Longrightarrow> \<not> revents_errval r < 0 \<Longrightarrow> revents r AND POLLOUT = 0 \<Longrightarrow>
   draft_loop_body data_size rate r s = ([Select, PollRevents], Continue s)"
  by (simp add: draft_loop_body_def)

lemma draft_generate_4_4:
  "draft_generate_data 4 4 0 = ([sample 4 0, sample 4 1, sample 4 2, sample 4 3], 4)"
  by (simp add: numeral_eq_Suc Let_def)

lemma draft_short_write:
  "draft_loop_body 4 4 (device_response SND_PCM_STATE_RUNNING 0 1 0 0)
     \<lparr>data = [0, 0, 0, 0], data_ptr = None, data_len = 0, draft_phase = 0\<rparr> =
     ([Select, PollRevents, Generate 4, Writei (Some 0) 4 1],
      Continue \<lparr>data = [sample 4 0, sample 4 1, sample 4 2, sample 4 3],
                data_ptr = Some 1, data_len = 3, draft_phase = 4\<rparr>) \<and>
   draft_loop_body 4 4 (device_response SND_PCM_STATE_RUNNING 0 3 0 0)
     \<lparr>data = [sample 4 0, sample 4 1, sample 4 2, sample 4 3],
      data_ptr = Some 1, data_len = 3, draft_phase = 4\<rparr> =
     ([Select, PollRevents, Writei (Some 0) 3 3],
      Continue \<lparr>data = [sample 4 0, sample 4 1, sample 4 2, sample 4 3],
                data_ptr = Some 4, data_len = 0, draft_phase = 4\<rparr>)"
  by (simp add: draft_loop_body_def device_response_def POLLOUT_def draft_generate_4_4)

end
